theory Spec2Isabelle
  imports Complex_Main
begin

section \<open>Three-state cellular automata: the model\<close>

text \<open>
  The development embeds \<^verbatim>\<open>code/three_state_unspaghetti.py\<close>: the function
  \<^verbatim>\<open>lookup_table\<close>, the function \<^verbatim>\<open>spacetime_field\<close> and the class \<^verbatim>\<open>ECA\<close>
  with its constructor and its method \<^verbatim>\<open>evolve\<close>.

  Python values. Cells are Python ints (\<open>int\<close>). A rule number and a step count are
  numbers that may be an int or a float; a float is a finite value, NaN or an infinity. The
  code applies only two operations to a float, the comparison \<^verbatim>\<open>< 0\<close> and the conversion
  \<^verbatim>\<open>int()\<close>; both are exact, so a finite float is represented by the rational it denotes.
\<close>

subsection \<open>Python values and exceptions\<close>

datatype py_float = Finite rat | NaN | PosInf | NegInf

datatype py_num = PyInt int | PyFloat py_float

datatype error =
    ValueError string
  | KeyError
  | IndexError
  | ZeroDivisionError
  | OverflowError

text \<open>\<^verbatim>\<open>x < 0\<close>: every comparison with NaN is false.\<close>

fun py_lt0 :: "py_num \<Rightarrow> bool" where
  "py_lt0 (PyInt n) = (n < 0)"
| "py_lt0 (PyFloat (Finite q)) = (q < 0)"
| "py_lt0 (PyFloat NaN) = False"
| "py_lt0 (PyFloat PosInf) = False"
| "py_lt0 (PyFloat NegInf) = True"

text \<open>
  \<^verbatim>\<open>int(x)\<close>: an int is returned as it is, a finite float is truncated toward zero, NaN
  raises ValueError and an infinity raises OverflowError.
\<close>

fun py_int :: "py_num \<Rightarrow> error + int" where
  "py_int (PyInt n) = Inr n"
| "py_int (PyFloat (Finite q)) = Inr (if q < 0 then \<lceil>q\<rceil> else \<lfloor>q\<rfloor>)"
| "py_int (PyFloat NaN) = Inl (ValueError ''cannot convert float NaN to integer'')"
| "py_int (PyFloat PosInf) = Inl OverflowError"
| "py_int (PyFloat NegInf) = Inl OverflowError"

text \<open>\<^verbatim>\<open>isinstance(x, int)\<close>.\<close>

fun isinstance_int :: "py_num \<Rightarrow> bool" where
  "isinstance_int (PyInt n) = True"
| "isinstance_int (PyFloat f) = False"

text \<open>The int held by a number that passed \<^verbatim>\<open>isinstance(x, int)\<close>.\<close>

fun int_value :: "py_num \<Rightarrow> int" where
  "int_value (PyInt n) = n"
| "int_value (PyFloat f) = 0"

text \<open>\<^verbatim>\<open>xs[i]\<close>: a negative index counts from the end, an index out of range raises.\<close>

definition py_getitem :: "'a list \<Rightarrow> int \<Rightarrow> error + 'a" where
  "py_getitem xs i =
     (if 0 \<le> i \<and> i < int (length xs) then Inr (xs ! nat i)
      else if - int (length xs) \<le> i \<and> i < 0 then Inr (xs ! nat (i + int (length xs)))
      else Inl IndexError)"

text \<open>\<^verbatim>\<open>a % b\<close> on ints: the result has the sign of \<open>b\<close>, as \<open>mod\<close> on \<open>int\<close> has.\<close>

definition py_mod :: "int \<Rightarrow> int \<Rightarrow> error + int" where
  "py_mod a b = (if b = 0 then Inl ZeroDivisionError else Inr (a mod b))"

text \<open>\<^verbatim>\<open>d[k]\<close> on a dictionary.\<close>

definition dict_getitem :: "('k \<rightharpoonup> 'v) \<Rightarrow> 'k \<Rightarrow> error + 'v" where
  "dict_getitem d k = (case d k of None \<Rightarrow> Inl KeyError | Some v \<Rightarrow> Inr v)"

text \<open>\<^verbatim>\<open>dict(pairs)\<close>: the pairs are stored in order, a later pair replaces an earlier one.\<close>

definition dict :: "('k \<times> 'v) list \<Rightarrow> ('k \<rightharpoonup> 'v)" where
  "dict kvs = foldl (\<lambda>d (k, v). d(k \<mapsto> v)) Map.empty kvs"

text \<open>
  \<^verbatim>\<open>str(r)\<close> for a remainder \<open>r\<close> of a division by 3 (a single decimal digit), and
  \<^verbatim>\<open>int(c)\<close> for a one-character string \<open>c\<close>, which raises ValueError unless \<open>c\<close> is a digit.
\<close>

definition py_str :: "nat \<Rightarrow> string" where
  "py_str r = [''0123456789'' ! r]"

definition int_of_char :: "char \<Rightarrow> error + int" where
  "int_of_char c =
     (case map_of (zip ''0123456789'' [0, 1, 2, 3, 4, 5, 6, 7, 8, 9]) c of
        None \<Rightarrow> Inl (ValueError ''invalid literal for int() with base 10'')
      | Some v \<Rightarrow> Inr v)"

text \<open>\<^verbatim>\<open>map(int, s)\<close>, consumed from left to right.\<close>

fun map_int :: "string \<Rightarrow> error + int list" where
  "map_int [] = Inr []"
| "map_int (c # cs) =
     (case int_of_char c of
        Inl e \<Rightarrow> Inl e
      | Inr v \<Rightarrow> (case map_int cs of Inl e \<Rightarrow> Inl e | Inr vs \<Rightarrow> Inr (v # vs)))"

subsection \<open>\<^verbatim>\<open>lookup_table\<close>\<close>

type_synonym table = "(int \<times> int) \<rightharpoonup> int"

definition neighborhoods :: "(int \<times> int) list" where
  "neighborhoods = [(0,0),(0,1),(0,2),(1,0),(1,1),(1,2),(2,0),(2,1),(2,2)]"

text \<open>
  The loop \<^verbatim>\<open>while n: n, r = divmod(n, 3); nums.append(str(r))\<close>. It is entered only
  after the range check on the rule number, so \<open>n\<close> is never negative and is a \<open>nat\<close>.
\<close>

function ternary_loop :: "nat \<Rightarrow> string list \<Rightarrow> string list" where
  "ternary_loop n nums =
     (if n \<noteq> 0 then ternary_loop (n div 3) (nums @ [py_str (n mod 3)]) else nums)"
  by pat_completeness auto
termination
  by (relation "measure fst") auto

declare ternary_loop.simps [simp del]

text \<open>
  The padding \<^verbatim>\<open>'0'*padding + in_ternary\<close>; a string times a negative number is empty,
  as \<open>replicate\<close> at \<open>nat\<close> of a negative number is.
\<close>

definition pad_ternary :: "string \<Rightarrow> string" where
  "pad_ternary in_ternary =
     (let ternary_length = length in_ternary in
      if ternary_length \<noteq> 9
      then (let padding = 9 - int ternary_length
            in replicate (nat padding) (CHR ''0'') @ in_ternary)
      else in_ternary)"

definition rule_number_error :: error where
  "rule_number_error = ValueError ''rule_number must be an int between 0 and 19682, inclusive''"

definition lookup_table :: "py_num \<Rightarrow> error + table" where
  "lookup_table rule_number =
     (if \<not> isinstance_int rule_number \<or> int_value rule_number < 0
           \<or> int_value rule_number > 19682
      then Inl rule_number_error
      else
        (let nums = ternary_loop (nat (int_value rule_number)) [];
             in_ternary = pad_ternary (concat (rev nums))
         in case map_int (rev in_ternary) of
              Inl e \<Rightarrow> Inl e
            | Inr outputs \<Rightarrow> Inr (dict (zip neighborhoods outputs))))"

subsection \<open>The evolution step shared by \<^verbatim>\<open>spacetime_field\<close> and \<^verbatim>\<open>ECA.evolve\<close>\<close>

text \<open>
  Both bodies hold the same inner loop over \<^verbatim>\<open>range(length)\<close> (lines 115 to 120 and lines
  251 to 256 of the source), which reads the lookup table, the current configuration and
  the length and appends to a fresh list. \<open>cell_output\<close> is one pass of the body.
\<close>

definition cell_output :: "table \<Rightarrow> int list \<Rightarrow> nat \<Rightarrow> nat \<Rightarrow> error + int" where
  "cell_output lookup current_configuration len i =
     (case py_mod (int i - 1) (int len) of
        Inl e \<Rightarrow> Inl e
      | Inr j \<Rightarrow>
          (case py_getitem current_configuration j of
             Inl e \<Rightarrow> Inl e
           | Inr left \<Rightarrow>
               (case py_getitem current_configuration (int i) of
                  Inl e \<Rightarrow> Inl e
                | Inr self \<Rightarrow> dict_getitem lookup (left, self))))"

fun cells_loop :: "table \<Rightarrow> int list \<Rightarrow> nat \<Rightarrow> nat list \<Rightarrow> int list \<Rightarrow> error + int list" where
  "cells_loop lookup current_configuration len [] new_configuration = Inr new_configuration"
| "cells_loop lookup current_configuration len (i # is) new_configuration =
     (case cell_output lookup current_configuration len i of
        Inl e \<Rightarrow> Inl e
      | Inr v \<Rightarrow> cells_loop lookup current_configuration len is (new_configuration @ [v]))"

definition new_configuration :: "table \<Rightarrow> int list \<Rightarrow> nat \<Rightarrow> error + int list" where
  "new_configuration lookup current_configuration len =
     cells_loop lookup current_configuration len [0..<len] []"

subsection \<open>Validation shared in text by both entry points\<close>

definition time_steps_error :: error where
  "time_steps_error = ValueError ''time_steps must be a non-negative integer''"

definition initial_condition_error :: error where
  "initial_condition_error = ValueError ''initial condition must be a list of 0s, 1s and 2s''"

text \<open>
  \<^verbatim>\<open>try: time_steps = int(time_steps)\<close> with \<^verbatim>\<open>except ValueError\<close>: a ValueError is
  replaced by the custom one, any other exception goes through.
\<close>

definition convert_time_steps :: "py_num \<Rightarrow> error + int" where
  "convert_time_steps time_steps =
     (case py_int time_steps of
        Inl (ValueError msg) \<Rightarrow> Inl time_steps_error
      | Inl e \<Rightarrow> Inl e
      | Inr n \<Rightarrow> Inr n)"

text \<open>The loop \<^verbatim>\<open>for i in initial_condition: if i not in [0,1,2]: raise ValueError(...)\<close>.\<close>

fun check_cells :: "int list \<Rightarrow> error + unit" where
  "check_cells [] = Inr ()"
| "check_cells (i # is) =
     (if i \<notin> set [0, 1, 2] then Inl initial_condition_error else check_cells is)"

subsection \<open>\<^verbatim>\<open>spacetime_field\<close>\<close>

text \<open>
  The loop \<^verbatim>\<open>for t in range(time_steps)\<close> with its three local variables: the current
  configuration, the spacetime field built so far, and the number of passes left.
\<close>

fun field_loop :: "table \<Rightarrow> nat \<Rightarrow> nat \<Rightarrow> int list \<Rightarrow> int list list \<Rightarrow> error + int list list" where
  "field_loop lookup len 0 current_configuration field = Inr field"
| "field_loop lookup len (Suc t) current_configuration field =
     (case new_configuration lookup current_configuration len of
        Inl e \<Rightarrow> Inl e
      | Inr new \<Rightarrow> field_loop lookup len t new (field @ [new]))"

definition spacetime_field :: "py_num \<Rightarrow> int list \<Rightarrow> py_num \<Rightarrow> error + int list list" where
  "spacetime_field rule_number initial_condition time_steps =
     (if py_lt0 time_steps then Inl time_steps_error
      else
        case convert_time_steps time_steps of
          Inl e \<Rightarrow> Inl e
        | Inr steps \<Rightarrow>
            (case check_cells initial_condition of
               Inl e \<Rightarrow> Inl e
             | Inr u \<Rightarrow>
                 (case lookup_table rule_number of
                    Inl e \<Rightarrow> Inl e
                  | Inr lookup \<Rightarrow>
                      field_loop lookup (length initial_condition) (nat steps)
                        initial_condition [initial_condition])))"

subsection \<open>The class \<^verbatim>\<open>ECA\<close>\<close>

text \<open>
  The attributes of an instance. \<^verbatim>\<open>lookup_table\<close> and \<^verbatim>\<open>_length\<close> are renamed, the one
  because the function has the name, the other because of its leading underscore. Lists are
  values here: the code never updates a list in place after it is stored.
\<close>

record ECA =
  lookup_table_attr :: table
  initial :: "int list"
  spacetime :: "int list list"
  current_configuration :: "int list"
  length_attr :: nat

definition ECA_init :: "py_num \<Rightarrow> int list \<Rightarrow> error + ECA" where
  "ECA_init rule_number initial_condition =
     (case check_cells initial_condition of
        Inl e \<Rightarrow> Inl e
      | Inr u \<Rightarrow>
          (case lookup_table rule_number of
             Inl e \<Rightarrow> Inl e
           | Inr lookup \<Rightarrow>
               Inr \<lparr> lookup_table_attr = lookup,
                     initial = initial_condition,
                     spacetime = [initial_condition],
                     current_configuration = initial_condition,
                     length_attr = length initial_condition \<rparr>))"

text \<open>
  A method that raises leaves the instance as it was at the raise, so \<open>evolve\<close> returns
  the instance together with either the exception or the (empty) result.
\<close>

fun evolve_loop :: "nat \<Rightarrow> ECA \<Rightarrow> (error + unit) \<times> ECA" where
  "evolve_loop 0 self = (Inr (), self)"
| "evolve_loop (Suc t) self =
     (case new_configuration (lookup_table_attr self) (current_configuration self)
             (length_attr self) of
        Inl e \<Rightarrow> (Inl e, self)
      | Inr new \<Rightarrow>
          evolve_loop t (self\<lparr> current_configuration := new,
                               spacetime := spacetime self @ [new] \<rparr>))"

definition evolve :: "py_num \<Rightarrow> ECA \<Rightarrow> (error + unit) \<times> ECA" where
  "evolve time_steps self =
     (if py_lt0 time_steps then (Inl time_steps_error, self)
      else
        case convert_time_steps time_steps of
          Inl e \<Rightarrow> (Inl e, self)
        | Inr steps \<Rightarrow> evolve_loop (nat steps) self)"

text \<open>
  The use the module makes of the class in its last three lines: construct, evolve, read
  the attribute \<^verbatim>\<open>spacetime\<close>.
\<close>

definition run_ECA :: "py_num \<Rightarrow> int list \<Rightarrow> py_num \<Rightarrow> error + int list list" where
  "run_ECA rule_number initial_condition time_steps =
     (case ECA_init rule_number initial_condition of
        Inl e \<Rightarrow> Inl e
      | Inr eca \<Rightarrow>
          (case evolve time_steps eca of
             (Inl e, eca') \<Rightarrow> Inl e
           | (Inr u, eca') \<Rightarrow> Inr (spacetime eca')))"

section \<open>Notions used in the proofs\<close>

text \<open>
  None of the following is code of the repository. They describe what the code computes:
  the ternary digits of a number, least significant first, as the loop of \<^verbatim>\<open>lookup_table\<close>
  produces them (\<open>lsd\<close>), the first \<open>k\<close> such digits (\<open>digits\<close>) and the number a
  digit list denotes (\<open>from_digits\<close>); the character \<^verbatim>\<open>str\<close> gives for a digit; a table
  that answers every neighborhood of cells in \<open>{0, 1, 2}\<close> with such a cell; the
  configuration one pass of the outer loop computes when no lookup fails, and the list of
  the configurations \<open>t\<close> passes compute; the invariant of the instances of \<^verbatim>\<open>ECA\<close>; and
  the instances a program can hold, made by the constructor and changed by \<^verbatim>\<open>evolve\<close> only.
\<close>

function lsd :: "nat \<Rightarrow> nat list" where
  "lsd n = (if n \<noteq> 0 then n mod 3 # lsd (n div 3) else [])"
  by pat_completeness auto
termination
  by (relation "measure id") auto

declare lsd.simps [simp del]

fun digits :: "nat \<Rightarrow> nat \<Rightarrow> nat list" where
  "digits 0 n = []"
| "digits (Suc k) n = n mod 3 # digits k (n div 3)"

fun from_digits :: "nat list \<Rightarrow> nat" where
  "from_digits [] = 0"
| "from_digits (d # ds) = d + 3 * from_digits ds"

definition digit_char :: "nat \<Rightarrow> char" where
  "digit_char d = ''0123456789'' ! d"

definition total_table :: "table \<Rightarrow> bool" where
  "total_table lookup \<longleftrightarrow>
     (\<forall>l\<in>{0, 1, 2}. \<forall>c\<in>{0, 1, 2}. \<exists>v\<in>{0, 1, 2}. lookup (l, c) = Some v)"

definition next_configuration :: "table \<Rightarrow> int list \<Rightarrow> int list" where
  "next_configuration lookup cfg =
     map (\<lambda>i. the (lookup (cfg ! nat ((int i - 1) mod int (length cfg)), cfg ! i)))
       [0..<length cfg]"

fun generations :: "table \<Rightarrow> nat \<Rightarrow> int list \<Rightarrow> int list list" where
  "generations lookup 0 cfg = []"
| "generations lookup (Suc t) cfg =
     next_configuration lookup cfg # generations lookup t (next_configuration lookup cfg)"

definition wf_ECA :: "ECA \<Rightarrow> bool" where
  "wf_ECA self \<longleftrightarrow>
     total_table (lookup_table_attr self) \<and>
     set (current_configuration self) \<subseteq> {0, 1, 2} \<and>
     length_attr self = length (current_configuration self)"

inductive reachable :: "ECA \<Rightarrow> bool" where
  constructed: "ECA_init rule_number initial_condition = Inr self \<Longrightarrow> reachable self"
| evolved: "reachable self \<Longrightarrow> reachable (snd (evolve time_steps self))"

section \<open>The rule table\<close>

subsection \<open>The digits of a rule number\<close>

lemma ternary_loop_lsd: "ternary_loop n nums = nums @ map py_str (lsd n)"
proof (induction n nums rule: ternary_loop.induct)
  case (1 n nums)
  show ?case
  proof (cases "n = 0")
    case True
    then show ?thesis by (simp add: lsd.simps [of 0] ternary_loop.simps [of 0])
  next
    case False
    with 1 show ?thesis
      by (subst ternary_loop.simps, subst lsd.simps) simp
  qed
qed

lemma length_digits [simp]: "length (digits k n) = k"
  by (induction k arbitrary: n) auto

lemma digits_zero: "digits k 0 = replicate k 0"
  by (induction k) auto

lemma lsd_digits:
  "n < 3 ^ k \<Longrightarrow> length (lsd n) \<le> k \<and> lsd n @ replicate (k - length (lsd n)) 0 = digits k n"
proof (induction k arbitrary: n)
  case 0
  then show ?case by (simp add: lsd.simps [of 0])
next
  case (Suc k)
  show ?case
  proof (cases "n = 0")
    case True
    then show ?thesis
      using digits_zero [of "Suc k"] by (simp add: lsd.simps [of 0])
  next
    case False
    from Suc.prems have "n div 3 < 3 ^ k" by (simp add: less_mult_imp_div_less mult.commute)
    from Suc.IH [OF this] False show ?thesis
      by (subst (1 2 3) lsd.simps) (simp add: Suc_diff_le)
  qed
qed

lemma digits_lt3: "d \<in> set (digits k n) \<Longrightarrow> d < 3"
  by (induction k arbitrary: n) auto

lemma from_digits_digits: "n < 3 ^ k \<Longrightarrow> from_digits (digits k n) = n"
proof (induction k arbitrary: n)
  case 0
  then show ?case by simp
next
  case (Suc k)
  from Suc.prems have "n div 3 < 3 ^ k" by (simp add: less_mult_imp_div_less mult.commute)
  from Suc.IH [OF this] show ?case by simp
qed

lemma from_digits_bound: "\<forall>d\<in>set ds. d < 3 \<Longrightarrow> from_digits ds < 3 ^ length ds"
  by (induction ds) auto

lemma digits_from_digits: "\<forall>d\<in>set ds. d < 3 \<Longrightarrow> digits (length ds) (from_digits ds) = ds"
  by (induction ds) auto

lemma py_str_digit_char: "py_str d = [digit_char d]"
  by (simp add: py_str_def digit_char_def)

lemma concat_rev_py_str: "concat (rev (map py_str ds)) = rev (map digit_char ds)"
  by (induction ds) (simp_all add: py_str_digit_char)

lemma pad_ternary_replicate: "pad_ternary s = replicate (9 - length s) (CHR ''0'') @ s"
  by (auto simp: pad_ternary_def Let_def nat_diff_distrib')

lemma int_of_char_digit: "d < 3 \<Longrightarrow> int_of_char (digit_char d) = Inr (int d)"
proof -
  assume "d < 3"
  then have "d = 0 \<or> d = 1 \<or> d = 2" by arith
  then show ?thesis
    by (auto simp: int_of_char_def digit_char_def)
qed

lemma map_int_digits: "\<forall>d\<in>set ds. d < 3 \<Longrightarrow> map_int (map digit_char ds) = Inr (map int ds)"
  by (induction ds) (simp_all add: int_of_char_digit)

lemma in_ternary_digits:
  assumes "n < 3 ^ 9"
  shows "rev (pad_ternary (concat (rev (ternary_loop n [])))) = map digit_char (digits 9 n)"
proof -
  from lsd_digits [OF assms]
  have len: "length (lsd n) \<le> 9"
    and dig: "lsd n @ replicate (9 - length (lsd n)) 0 = digits 9 n" by simp_all
  have "rev (pad_ternary (concat (rev (ternary_loop n [])))) =
        map digit_char (lsd n) @ replicate (9 - length (lsd n)) (CHR ''0'')"
    by (simp add: ternary_loop_lsd concat_rev_py_str pad_ternary_replicate)
  also have "\<dots> = map digit_char (lsd n @ replicate (9 - length (lsd n)) 0)"
    by (simp add: digit_char_def)
  finally show ?thesis by (simp only: dig)
qed

lemma foldl_dict_zip:
  "distinct ks \<Longrightarrow>
   foldl (\<lambda>d (k, v). d(k \<mapsto> v)) m (zip ks vs) = m ++ map_of (zip ks vs)"
proof (induction ks arbitrary: vs m)
  case Nil
  then show ?case by simp
next
  case (Cons k ks)
  show ?case
  proof (cases vs)
    case Nil
    then show ?thesis by simp
  next
    case (Cons v vs')
    from Cons.prems have k: "k \<notin> set ks" and d: "distinct ks" by simp_all
    from k have none: "map_of (zip ks vs') k = None"
      by (auto simp: map_of_eq_None_iff dest: set_zip_leftD)
    have swap: "m(k \<mapsto> v) ++ map_of (zip ks vs') = m ++ (map_of (zip ks vs'))(k \<mapsto> v)"
    proof (rule ext)
      fix x
      show "(m(k \<mapsto> v) ++ map_of (zip ks vs')) x = (m ++ (map_of (zip ks vs'))(k \<mapsto> v)) x"
        using none by (cases "x = k") (simp_all add: map_add_def split: option.splits)
    qed
    have "foldl (\<lambda>d (k, v). d(k \<mapsto> v)) m (zip (k # ks) vs) =
          foldl (\<lambda>d (k, v). d(k \<mapsto> v)) (m(k \<mapsto> v)) (zip ks vs')"
      using Cons by simp
    also have "\<dots> = m(k \<mapsto> v) ++ map_of (zip ks vs')"
      by (rule Cons.IH [OF d])
    also have "\<dots> = m ++ map_of (zip (k # ks) vs)"
      using Cons swap by simp
    finally show ?thesis .
  qed
qed

lemma dict_zip: "distinct ks \<Longrightarrow> dict (zip ks vs) = map_of (zip ks vs)"
  by (simp add: dict_def foldl_dict_zip)

lemma distinct_neighborhoods: "distinct neighborhoods"
  by (simp add: neighborhoods_def)

lemma length_neighborhoods: "length neighborhoods = 9"
  by (simp add: neighborhoods_def)

lemma lookup_table_digits:
  assumes "0 \<le> r" and "r \<le> 19682"
  shows "lookup_table (PyInt r) = Inr (map_of (zip neighborhoods (map int (digits 9 (nat r)))))"
proof -
  from assms have n: "nat r < 3 ^ 9" by simp
  have "map_int (rev (pad_ternary (concat (rev (ternary_loop (nat r) []))))) =
        Inr (map int (digits 9 (nat r)))"
    by (simp only: in_ternary_digits [OF n]) (simp add: map_int_digits digits_lt3)
  with assms show ?thesis
    by (simp add: lookup_table_def Let_def dict_zip distinct_neighborhoods)
qed

subsection \<open>The table of a valid rule number\<close>

lemma lookup_table_nth:
  assumes "0 \<le> r" and "r \<le> 19682" and "i < 9"
  shows "\<exists>t. lookup_table (PyInt r) = Inr t \<and>
             t (neighborhoods ! i) = Some (int (digits 9 (nat r) ! i))"
  using assms
  by (simp add: lookup_table_digits map_of_zip_nth distinct_neighborhoods length_neighborhoods)

lemma ran_map_of_zip_digits: "ran (map_of (zip neighborhoods (map int (digits 9 n)))) \<subseteq> {0, 1, 2}"
proof
  fix v
  assume "v \<in> ran (map_of (zip neighborhoods (map int (digits 9 n))))"
  then obtain k where "map_of (zip neighborhoods (map int (digits 9 n))) k = Some v"
    by (auto simp: ran_def)
  then have "(k, v) \<in> set (zip neighborhoods (map int (digits 9 n)))"
    by (rule map_of_SomeD)
  then have "v \<in> set (map int (digits 9 n))"
    by (rule set_zip_rightD)
  then obtain d where "d \<in> set (digits 9 n)" and "v = int d" by auto
  with digits_lt3 [of d 9 n] show "v \<in> {0, 1, 2}" by auto
qed

lemma set_neighborhoods: "set neighborhoods = {0, 1, 2} \<times> {0, 1, 2}"
  by (auto simp: neighborhoods_def)

lemma total_table_iff: "dom t = set neighborhoods \<Longrightarrow> ran t \<subseteq> {0, 1, 2} \<Longrightarrow> total_table t"
  unfolding total_table_def
proof (intro ballI)
  fix l c :: int
  assume d: "dom t = set neighborhoods" and r: "ran t \<subseteq> {0, 1, 2}"
    and "l \<in> {0, 1, 2}" and "c \<in> {0, 1, 2}"
  then have "(l, c) \<in> dom t" by (auto simp: set_neighborhoods)
  then obtain v where v: "t (l, c) = Some v" by auto
  then have "v \<in> ran t" by (rule ranI)
  with r v show "\<exists>v\<in>{0, 1, 2}. t (l, c) = Some v" by auto
qed

lemma lookup_table_dom_ran:
  assumes "0 \<le> r" and "r \<le> 19682"
  shows "\<exists>t. lookup_table (PyInt r) = Inr t \<and> dom t = set neighborhoods \<and> ran t \<subseteq> {0, 1, 2}"
  using assms
  by (simp add: lookup_table_digits dom_map_of_zip length_neighborhoods ran_map_of_zip_digits)

lemma lookup_table_total:
  "lookup_table r = Inr t \<Longrightarrow> total_table t"
proof -
  assume a: "lookup_table r = Inr t"
  then obtain n where r: "r = PyInt n" and n: "0 \<le> n" "n \<le> 19682"
    by (cases r) (auto simp: lookup_table_def split: if_splits)
  from lookup_table_dom_ran [OF n] a r show ?thesis
    by (auto intro: total_table_iff)
qed

lemma lookup_table_inj:
  assumes "0 \<le> r1" "r1 \<le> 19682" "0 \<le> r2" "r2 \<le> 19682"
    and eq: "lookup_table (PyInt r1) = lookup_table (PyInt r2)"
  shows "r1 = r2"
proof -
  from assms have "map_of (zip neighborhoods (map int (digits 9 (nat r1)))) =
                   map_of (zip neighborhoods (map int (digits 9 (nat r2))))"
    by (simp add: lookup_table_digits)
  then have "map int (digits 9 (nat r1)) = map int (digits 9 (nat r2))"
    by (rule map_of_zip_inject [rotated 3])
       (simp_all add: length_neighborhoods distinct_neighborhoods)
  then have "digits 9 (nat r1) = digits 9 (nat r2)"
    by (simp add: inj_map_eq_map)
  then have "from_digits (digits 9 (nat r1)) = from_digits (digits 9 (nat r2))" by simp
  moreover from assms have "nat r1 < 3 ^ 9" "nat r2 < 3 ^ 9" by simp_all
  ultimately have "nat r1 = nat r2" by (simp add: from_digits_digits)
  with assms show ?thesis by simp
qed

lemma lookup_table_surj:
  fixes t :: table
  assumes d: "dom t = set neighborhoods" and r: "ran t \<subseteq> {0, 1, 2}"
  shows "\<exists>n. 0 \<le> n \<and> n \<le> 19682 \<and> lookup_table (PyInt n) = Inr t"
proof -
  define ds where "ds = map (\<lambda>k. nat (the (t k))) neighborhoods"
  have val: "t k \<in> Some ` {0, 1, 2}" if "k \<in> set neighborhoods" for k
  proof -
    from that d obtain v where v: "t k = Some v" by auto
    then have "v \<in> ran t" by (rule ranI)
    with r v show ?thesis by auto
  qed
  have lt3: "\<forall>d\<in>set ds. d < 3"
  proof
    fix d
    assume "d \<in> set ds"
    then obtain k where k: "k \<in> set neighborhoods" and d: "d = nat (the (t k))"
      by (auto simp: ds_def)
    from val [OF k] d show "d < 3" by auto
  qed
  have len: "length ds = 9" by (simp add: ds_def length_neighborhoods)
  from from_digits_bound [OF lt3] len have bound: "from_digits ds < 3 ^ 9" by simp
  from digits_from_digits [OF lt3] len have dig: "digits 9 (from_digits ds) = ds" by simp
  have "map int ds = map (\<lambda>k. the (t k)) neighborhoods"
  proof (unfold ds_def map_map, rule map_cong [OF refl])
    fix k
    assume "k \<in> set neighborhoods"
    from val [OF this] show "(int \<circ> (\<lambda>k. nat (the (t k)))) k = the (t k)" by auto
  qed
  then have "map_of (zip neighborhoods (map int ds)) =
             (\<lambda>k. if k \<in> set neighborhoods then Some (the (t k)) else None)"
    by (simp add: map_of_zip_map)
  also have "\<dots> = t"
  proof (rule ext)
    fix k
    show "(if k \<in> set neighborhoods then Some (the (t k)) else None) = t k"
    proof (cases "k \<in> set neighborhoods")
      case True
      with val [OF True] show ?thesis by auto
    next
      case False
      with d have "t k = None" by auto
      with False show ?thesis by simp
    qed
  qed
  finally have "lookup_table (PyInt (int (from_digits ds))) = Inr t"
    using bound by (simp add: lookup_table_digits dig)
  with bound show ?thesis
    by (intro exI [of _ "int (from_digits ds)"]) simp
qed

section \<open>Evolution\<close>

lemma check_cells_iff: "check_cells cfg = Inr () \<longleftrightarrow> set cfg \<subseteq> {0, 1, 2}"
  by (induction cfg) auto

lemma check_cells_Inr: "check_cells cfg = Inr u \<Longrightarrow> set cfg \<subseteq> {0, 1, 2}"
  using check_cells_iff [of cfg] by simp

lemma left_index:
  assumes "i < n"
  shows "0 \<le> (int i - 1) mod int n" and "(int i - 1) mod int n < int n"
    and "nat ((int i - 1) mod int n) < n"
proof -
  from assms have n: "0 < int n" by simp
  from n show a: "0 \<le> (int i - 1) mod int n" by (rule pos_mod_sign)
  from n show b: "(int i - 1) mod int n < int n" by (rule pos_mod_bound)
  from a b show "nat ((int i - 1) mod int n) < n" by (simp add: nat_less_iff)
qed

lemma cell_output_total:
  assumes tot: "total_table lookup" and val: "set cfg \<subseteq> {0, 1, 2}" and i: "i < length cfg"
  shows "\<exists>v\<in>{0, 1, 2}.
           lookup (cfg ! nat ((int i - 1) mod int (length cfg)), cfg ! i) = Some v \<and>
           cell_output lookup cfg (length cfg) i = Inr v"
proof -
  let ?j = "(int i - 1) mod int (length cfg)"
  note j = left_index [OF i]
  from i have m: "py_mod (int i - 1) (int (length cfg)) = Inr ?j"
    by (auto simp: py_mod_def)
  from j have l: "py_getitem cfg ?j = Inr (cfg ! nat ?j)"
    by (simp add: py_getitem_def)
  from i have s: "py_getitem cfg (int i) = Inr (cfg ! i)"
    by (simp add: py_getitem_def)
  from j(3) val have "cfg ! nat ?j \<in> {0, 1, 2}" by (meson nth_mem subsetD)
  moreover from i val have "cfg ! i \<in> {0, 1, 2}" by (meson nth_mem subsetD)
  ultimately obtain v where "v \<in> {0, 1, 2}" and "lookup (cfg ! nat ?j, cfg ! i) = Some v"
    using tot unfolding total_table_def by blast
  with m l s show ?thesis
    by (simp add: cell_output_def dict_getitem_def)
qed

lemma cell_output_next:
  assumes "total_table lookup" and "set cfg \<subseteq> {0, 1, 2}" and "i < length cfg"
  shows "cell_output lookup cfg (length cfg) i =
         Inr (the (lookup (cfg ! nat ((int i - 1) mod int (length cfg)), cfg ! i)))"
  using cell_output_total [OF assms] by auto

lemma cells_loop_map:
  assumes "total_table lookup" and "set cfg \<subseteq> {0, 1, 2}"
  shows "\<forall>i\<in>set is. i < length cfg \<Longrightarrow>
         cells_loop lookup cfg (length cfg) is acc =
         Inr (acc @ map (\<lambda>i. the (lookup (cfg ! nat ((int i - 1) mod int (length cfg)), cfg ! i))) is)"
  by (induction "is" arbitrary: acc) (simp_all add: cell_output_next [OF assms])

lemma new_configuration_next:
  assumes "total_table lookup" and "set cfg \<subseteq> {0, 1, 2}"
  shows "new_configuration lookup cfg (length cfg) = Inr (next_configuration lookup cfg)"
  by (simp add: new_configuration_def next_configuration_def cells_loop_map [OF assms])

lemma length_next_configuration [simp]:
  "length (next_configuration lookup cfg) = length cfg"
  by (simp add: next_configuration_def)

lemma next_configuration_nth:
  assumes "total_table lookup" and "set cfg \<subseteq> {0, 1, 2}" and "i < length cfg"
  shows "lookup (cfg ! nat ((int i - 1) mod int (length cfg)), cfg ! i) =
         Some (next_configuration lookup cfg ! i)"
    and "next_configuration lookup cfg ! i \<in> {0, 1, 2}"
  using cell_output_total [OF assms] assms(3) by (auto simp: next_configuration_def)

lemma next_configuration_valid:
  assumes "total_table lookup" and "set cfg \<subseteq> {0, 1, 2}"
  shows "set (next_configuration lookup cfg) \<subseteq> {0, 1, 2}"
proof
  fix v
  assume "v \<in> set (next_configuration lookup cfg)"
  then obtain i where "i < length cfg" and "v = next_configuration lookup cfg ! i"
    by (auto simp: in_set_conv_nth)
  with next_configuration_nth(2) [OF assms] show "v \<in> {0, 1, 2}" by simp
qed

lemma generations_length [simp]: "length (generations lookup t cfg) = t"
  by (induction t arbitrary: cfg) simp_all

lemma generations_rows:
  "row \<in> set (generations lookup t cfg) \<Longrightarrow> length row = length cfg"
  by (induction t arbitrary: cfg) auto

lemma generations_add:
  "generations lookup (n + m) cfg =
   generations lookup n cfg @ generations lookup m (last (cfg # generations lookup n cfg))"
  by (induction n arbitrary: cfg) simp_all

lemma field_loop_generations:
  assumes "total_table lookup"
  shows "set cfg \<subseteq> {0, 1, 2} \<Longrightarrow>
         field_loop lookup (length cfg) t cfg field = Inr (field @ generations lookup t cfg)"
proof (induction t arbitrary: cfg field)
  case 0
  then show ?case by simp
next
  case (Suc t)
  from next_configuration_valid [OF assms Suc.prems]
  have "field_loop lookup (length (next_configuration lookup cfg)) t
          (next_configuration lookup cfg) (field @ [next_configuration lookup cfg]) =
        Inr ((field @ [next_configuration lookup cfg]) @
             generations lookup t (next_configuration lookup cfg))"
    by (rule Suc.IH)
  then show ?case
    by (simp add: new_configuration_next [OF assms Suc.prems])
qed

lemma evolve_loop_generations:
  "wf_ECA self \<Longrightarrow>
   evolve_loop t self =
     (Inr (),
      self\<lparr> current_configuration :=
               last (current_configuration self #
                     generations (lookup_table_attr self) t (current_configuration self)),
             spacetime :=
               spacetime self @
               generations (lookup_table_attr self) t (current_configuration self) \<rparr>)"
proof (induction t arbitrary: self)
  case 0
  then show ?case by simp
next
  case (Suc t)
  let ?new = "next_configuration (lookup_table_attr self) (current_configuration self)"
  let ?self' = "self\<lparr> current_configuration := ?new, spacetime := spacetime self @ [?new] \<rparr>"
  from Suc.prems have tot: "total_table (lookup_table_attr self)"
    and val: "set (current_configuration self) \<subseteq> {0, 1, 2}"
    and len: "length_attr self = length (current_configuration self)"
    by (simp_all add: wf_ECA_def)
  from next_configuration_valid [OF tot val] tot len have "wf_ECA ?self'"
    by (simp add: wf_ECA_def)
  from Suc.IH [OF this] new_configuration_next [OF tot val] len show ?case
    by simp
qed

lemma wf_ECA_evolve_loop:
  assumes "wf_ECA self"
  shows "wf_ECA (snd (evolve_loop t self))"
  using assms
proof (induction t arbitrary: self)
  case 0
  then show ?case by simp
next
  case (Suc t)
  let ?new = "next_configuration (lookup_table_attr self) (current_configuration self)"
  let ?self' = "self\<lparr> current_configuration := ?new, spacetime := spacetime self @ [?new] \<rparr>"
  from Suc.prems have tot: "total_table (lookup_table_attr self)"
    and val: "set (current_configuration self) \<subseteq> {0, 1, 2}"
    and len: "length_attr self = length (current_configuration self)"
    by (simp_all add: wf_ECA_def)
  from next_configuration_valid [OF tot val] tot len have "wf_ECA ?self'"
    by (simp add: wf_ECA_def)
  from Suc.IH [OF this] new_configuration_next [OF tot val] len show ?case
    by simp
qed

lemma ECA_init_Inr:
  assumes "ECA_init rule_number initial_condition = Inr self"
  obtains lookup where "set initial_condition \<subseteq> {0, 1, 2}"
    and "lookup_table rule_number = Inr lookup"
    and "self = \<lparr> lookup_table_attr = lookup, initial = initial_condition,
                  spacetime = [initial_condition],
                  current_configuration = initial_condition,
                  length_attr = length initial_condition \<rparr>"
proof -
  from assms obtain u lookup where c: "check_cells initial_condition = Inr u"
    and l: "lookup_table rule_number = Inr lookup"
    and s: "self = \<lparr> lookup_table_attr = lookup, initial = initial_condition,
                  spacetime = [initial_condition],
                  current_configuration = initial_condition,
                  length_attr = length initial_condition \<rparr>"
    by (auto simp: ECA_init_def split: sum.splits)
  from check_cells_Inr [OF c] l s that show thesis by blast
qed

lemma ECA_init_wf:
  assumes "ECA_init rule_number initial_condition = Inr self"
  shows "wf_ECA self"
proof -
  from assms obtain lookup where "set initial_condition \<subseteq> {0, 1, 2}"
    and "lookup_table rule_number = Inr lookup"
    and "self = \<lparr> lookup_table_attr = lookup, initial = initial_condition,
                  spacetime = [initial_condition],
                  current_configuration = initial_condition,
                  length_attr = length initial_condition \<rparr>"
    by (rule ECA_init_Inr)
  with lookup_table_total [of rule_number lookup] show ?thesis
    by (simp add: wf_ECA_def)
qed

lemma evolve_cases:
  "(\<exists>e. evolve time_steps self = (Inl e, self)) \<or>
   (\<exists>n. 0 \<le> n \<and> \<not> py_lt0 time_steps \<and> py_int time_steps = Inr n \<and>
        evolve time_steps self = evolve_loop (nat n) self)"
proof (cases "py_lt0 time_steps")
  case True
  then show ?thesis by (simp add: evolve_def)
next
  case False
  show ?thesis
  proof (cases "py_int time_steps")
    case (Inl e)
    with False show ?thesis
      by (cases e) (simp_all add: evolve_def convert_time_steps_def)
  next
    case (Inr n)
    with False have "0 \<le> n"
      by (cases time_steps rule: py_lt0.cases) (auto split: if_splits)
    with False Inr show ?thesis
      by (simp add: evolve_def convert_time_steps_def)
  qed
qed

lemma wf_ECA_evolve: "wf_ECA self \<Longrightarrow> wf_ECA (snd (evolve time_steps self))"
  using evolve_cases [of time_steps self] by (auto simp: wf_ECA_evolve_loop)

lemma reachable_wf: "reachable self \<Longrightarrow> wf_ECA self"
  by (induction rule: reachable.induct) (simp_all add: ECA_init_wf wf_ECA_evolve)

subsection \<open>Closed forms of the two entry points\<close>

lemma generations_Nil: "generations lookup t [] = replicate t []"
  by (induction t) (simp_all add: next_configuration_def)

lemma spacetime_field_generations:
  assumes "lookup_table rule_number = Inr lookup" and "set ic \<subseteq> {0, 1, 2}" and "0 \<le> n"
  shows "spacetime_field rule_number ic (PyInt n) = Inr (ic # generations lookup (nat n) ic)"
proof -
  from assms(2) have "check_cells ic = Inr ()" by (simp add: check_cells_iff)
  with assms field_loop_generations [OF lookup_table_total [OF assms(1)] assms(2)]
  show ?thesis
    by (simp add: spacetime_field_def convert_time_steps_def)
qed

lemma ECA_init_valid:
  assumes "lookup_table rule_number = Inr lookup" and "set ic \<subseteq> {0, 1, 2}"
  shows "ECA_init rule_number ic =
         Inr \<lparr> lookup_table_attr = lookup, initial = ic, spacetime = [ic],
               current_configuration = ic, length_attr = length ic \<rparr>"
proof -
  from assms(2) have "check_cells ic = Inr ()" by (simp add: check_cells_iff)
  with assms(1) show ?thesis by (simp add: ECA_init_def)
qed

lemma evolve_generations:
  assumes "wf_ECA self" and "0 \<le> n"
  shows "evolve (PyInt n) self =
     (Inr (),
      self\<lparr> current_configuration :=
               last (current_configuration self #
                     generations (lookup_table_attr self) (nat n) (current_configuration self)),
             spacetime :=
               spacetime self @
               generations (lookup_table_attr self) (nat n) (current_configuration self) \<rparr>)"
  using assms by (simp add: evolve_def convert_time_steps_def evolve_loop_generations)

lemma last_append_last: "last (x # xs @ ys) = last (last (x # xs) # ys)"
  by (cases ys) simp_all

lemma left_of_first: "0 < L \<Longrightarrow> nat ((int 0 - 1) mod int L) = L - 1"
  by (simp add: zmod_minus1 nat_diff_distrib')

lemma ECA_init_rule_9841:
  "ECA_init (PyInt 9841) [0, 1, 2] =
   Inr \<lparr> lookup_table_attr = dict (zip neighborhoods [1, 1, 1, 1, 1, 1, 1, 1, 1]),
         initial = [0, 1, 2], spacetime = [[0, 1, 2]],
         current_configuration = [0, 1, 2], length_attr = 3 \<rparr>"
  by (simp add: ECA_init_def lookup_table_def ternary_loop.simps py_str_def pad_ternary_def
      int_of_char_def)

section \<open>The claims about the rule table\<close>

text \<open>
  Claim C2. The table of rule number 255 gives the nine neighborhoods, in the order
  (0,0), (0,1), (0,2), (1,0), (1,1), (1,2), (2,0), (2,1), (2,2), the outputs
  0, 1, 1, 0, 0, 1, 0, 0, 0; the table of rule number 9841 gives every neighborhood the
  output 1, and the table of rule number 19682 gives every neighborhood the output 2.
\<close>

theorem lookup_table_known_rules:
  "map_sum id (\<lambda>t. map t neighborhoods) (lookup_table (PyInt 255)) =
     Inr (map Some [0, 1, 1, 0, 0, 1, 0, 0, 0]) \<and>
   map_sum id (\<lambda>t. map t neighborhoods) (lookup_table (PyInt 9841)) =
     Inr (map Some [1, 1, 1, 1, 1, 1, 1, 1, 1]) \<and>
   map_sum id (\<lambda>t. map t neighborhoods) (lookup_table (PyInt 19682)) =
     Inr (map Some [2, 2, 2, 2, 2, 2, 2, 2, 2])"
proof (intro conjI)
  show "map_sum id (\<lambda>t. map t neighborhoods) (lookup_table (PyInt 255)) =
        Inr (map Some [0, 1, 1, 0, 0, 1, 0, 0, 0])"
    by code_simp
  show "map_sum id (\<lambda>t. map t neighborhoods) (lookup_table (PyInt 9841)) =
        Inr (map Some [1, 1, 1, 1, 1, 1, 1, 1, 1])"
    by (simp add: lookup_table_def ternary_loop.simps py_str_def pad_ternary_def
        int_of_char_def dict_def neighborhoods_def)
  show "map_sum id (\<lambda>t. map t neighborhoods) (lookup_table (PyInt 19682)) =
        Inr (map Some [2, 2, 2, 2, 2, 2, 2, 2, 2])"
    by (simp add: lookup_table_def ternary_loop.simps py_str_def pad_ternary_def
        int_of_char_def dict_def neighborhoods_def)
qed

theorem lookup_table_known_rules_witness:
  "isinstance_int (PyInt 255) \<and> \<not> int_value (PyInt 255) < 0 \<and> \<not> int_value (PyInt 255) > 19682 \<and>
   map_sum id (\<lambda>t. map t neighborhoods) (lookup_table (PyInt 255)) =
     Inr (map Some [0, 1, 1, 0, 0, 1, 0, 0, 0])"
  using lookup_table_known_rules by simp

text \<open>
  Claim C8. For every rule number from 0 to 19682, \<^verbatim>\<open>lookup_table\<close> returns a table whose
  keys are the nine neighborhoods, each once (the list of neighborhoods has nine distinct
  entries); distinct rule numbers in that range give distinct tables, and every table with
  these keys and with outputs in \<open>{0, 1, 2}\<close> is the table of a rule number in that range:
  the rule numbers from 0 to 19682 and these tables are in bijection. That the same rule
  number gives the same table every time is what it means for \<open>lookup_table\<close> to be a
  function of the rule number alone: the code reads nothing else.
\<close>

theorem lookup_table_bijection:
  "distinct neighborhoods \<and> length neighborhoods = 9 \<and>
   (\<forall>r\<in>{0..19682}. \<exists>t. lookup_table (PyInt r) = Inr t \<and> dom t = set neighborhoods) \<and>
   bij_betw (\<lambda>r. lookup_table (PyInt r)) {0..19682}
     (Inr ` {t::table. dom t = set neighborhoods \<and> ran t \<subseteq> {0, 1, 2}})"
proof (intro conjI)
  show "distinct neighborhoods" by (rule distinct_neighborhoods)
  show "length neighborhoods = 9" by (rule length_neighborhoods)
  show "\<forall>r\<in>{0..19682}. \<exists>t. lookup_table (PyInt r) = Inr t \<and> dom t = set neighborhoods"
  proof
    fix r :: int
    assume "r \<in> {0..19682}"
    then have "0 \<le> r" and "r \<le> 19682" by simp_all
    from lookup_table_dom_ran [OF this]
    show "\<exists>t. lookup_table (PyInt r) = Inr t \<and> dom t = set neighborhoods" by blast
  qed
  show "bij_betw (\<lambda>r. lookup_table (PyInt r)) {0..19682}
     (Inr ` {t::table. dom t = set neighborhoods \<and> ran t \<subseteq> {0, 1, 2}})"
    unfolding bij_betw_def
  proof
    show "inj_on (\<lambda>r. lookup_table (PyInt r)) {0..19682}"
    proof (rule inj_onI)
      fix r1 r2 :: int
      assume "r1 \<in> {0..19682}" and "r2 \<in> {0..19682}"
        and "lookup_table (PyInt r1) = lookup_table (PyInt r2)"
      then show "r1 = r2"
        by (intro lookup_table_inj) simp_all
    qed
    show "(\<lambda>r. lookup_table (PyInt r)) ` {0..19682} =
          Inr ` {t::table. dom t = set neighborhoods \<and> ran t \<subseteq> {0, 1, 2}}"
    proof (intro equalityI subsetI)
      fix x :: "error + table"
      assume "x \<in> (\<lambda>r. lookup_table (PyInt r)) ` {0..19682}"
      then obtain r where r: "0 \<le> r" "r \<le> 19682" and x: "x = lookup_table (PyInt r)"
        by auto
      from lookup_table_dom_ran [OF r] x
      show "x \<in> Inr ` {t::table. dom t = set neighborhoods \<and> ran t \<subseteq> {0, 1, 2}}" by blast
    next
      fix x :: "error + table"
      assume "x \<in> Inr ` {t::table. dom t = set neighborhoods \<and> ran t \<subseteq> {0, 1, 2}}"
      then obtain t :: table where x: "x = Inr t"
        and t: "dom t = set neighborhoods" "ran t \<subseteq> {0, 1, 2}" by auto
      from lookup_table_surj [OF t]
      obtain n where n: "0 \<le> n" "n \<le> 19682" and "lookup_table (PyInt n) = Inr t" by blast
      with x have "x = lookup_table (PyInt n)" by simp
      moreover from n have "n \<in> {0..19682}" by simp
      ultimately show "x \<in> (\<lambda>r. lookup_table (PyInt r)) ` {0..19682}" by (rule image_eqI)
    qed
  qed
qed

theorem lookup_table_bijection_witness:
  "(255::int) \<in> {0..19682} \<and> (22::int) \<in> {0..19682} \<and>
   (\<exists>t. lookup_table (PyInt 255) = Inr t \<and> dom t = set neighborhoods) \<and>
   lookup_table (PyInt 255) \<noteq> lookup_table (PyInt 22)"
proof -
  have a: "(255::int) \<in> {0..19682}" and b: "(22::int) \<in> {0..19682}" by simp_all
  from lookup_table_bijection
  have tot: "\<forall>r\<in>{0..19682}. \<exists>t. lookup_table (PyInt r) = Inr t \<and> dom t = set neighborhoods"
    and inj: "inj_on (\<lambda>r. lookup_table (PyInt r)) {0..19682}"
    by (simp_all add: bij_betw_def)
  from tot a have "\<exists>t. lookup_table (PyInt 255) = Inr t \<and> dom t = set neighborhoods"
    by (rule bspec)
  moreover from inj a b have "lookup_table (PyInt 255) \<noteq> lookup_table (PyInt 22)"
    by (auto dest: inj_onD)
  ultimately show ?thesis using a b by blast
qed

section \<open>The claims about evolution\<close>

text \<open>
  Claim C1. Rule number 22 run from the initial condition [0,0,2,0,1,0] for 2 steps gives
  a spacetime field whose generation 1 is [1,1,2,0,1,0] and whose generation 2 is
  [1,0,0,0,1,0]. This holds of \<^verbatim>\<open>spacetime_field\<close> and of an instance of \<^verbatim>\<open>ECA\<close> after
  \<^verbatim>\<open>evolve(2)\<close> alike; generation 0 is the initial condition.
\<close>

theorem known_evolution_trace:
  "spacetime_field (PyInt 22) [0, 0, 2, 0, 1, 0] (PyInt 2) =
     Inr [[0, 0, 2, 0, 1, 0], [1, 1, 2, 0, 1, 0], [1, 0, 0, 0, 1, 0]] \<and>
   run_ECA (PyInt 22) [0, 0, 2, 0, 1, 0] (PyInt 2) =
     Inr [[0, 0, 2, 0, 1, 0], [1, 1, 2, 0, 1, 0], [1, 0, 0, 0, 1, 0]]"
proof
  show "spacetime_field (PyInt 22) [0, 0, 2, 0, 1, 0] (PyInt 2) =
     Inr [[0, 0, 2, 0, 1, 0], [1, 1, 2, 0, 1, 0], [1, 0, 0, 0, 1, 0]]"
    by code_simp
  show "run_ECA (PyInt 22) [0, 0, 2, 0, 1, 0] (PyInt 2) =
     Inr [[0, 0, 2, 0, 1, 0], [1, 1, 2, 0, 1, 0], [1, 0, 0, 0, 1, 0]]"
    by code_simp
qed

theorem known_evolution_trace_witness:
  "\<not> py_lt0 (PyInt 2) \<and> check_cells [0, 0, 2, 0, 1, 0] = Inr () \<and>
   isinstance_int (PyInt 22) \<and> \<not> int_value (PyInt 22) < 0 \<and> \<not> int_value (PyInt 22) > 19682 \<and>
   map_sum id (\<lambda>field. (field ! 1, field ! 2))
     (spacetime_field (PyInt 22) [0, 0, 2, 0, 1, 0] (PyInt 2)) =
     Inr ([1, 1, 2, 0, 1, 0], [1, 0, 0, 0, 1, 0])"
  using known_evolution_trace by simp

text \<open>
  Claim C3. Let the rule number be valid and let \<open>cfg\<close> be a configuration that is not
  empty and has its cells in \<open>{0, 1, 2}\<close>. One pass of the evolution loop succeeds and gives
  a configuration \<open>new\<close> of the same length in which, at every position \<open>i\<close>, the cell is
  the output of the table for the neighborhood made of the cell of \<open>cfg\<close> at
  \<open>(i - 1) mod length cfg\<close> and the cell of \<open>cfg\<close> at \<open>i\<close>. At position 0 the left neighbor is
  the last cell of \<open>cfg\<close>. Every cell of \<open>new\<close> is thus a function of \<open>cfg\<close>, the
  configuration before the pass, and of nothing computed during the pass. The pass is the
  one \<^verbatim>\<open>spacetime_field\<close> makes for one time step and the one \<^verbatim>\<open>evolve(1)\<close> makes on any
  instance that holds the table, \<open>cfg\<close> as its current configuration and the length of
  \<open>cfg\<close>.
\<close>

theorem evolution_step_cyclic:
  assumes "0 \<le> r" and "r \<le> 19682" and "cfg \<noteq> []" and "set cfg \<subseteq> {0, 1, 2}"
  shows "\<exists>lookup new.
           lookup_table (PyInt r) = Inr lookup \<and>
           new_configuration lookup cfg (length cfg) = Inr new \<and>
           length new = length cfg \<and>
           (\<forall>i<length cfg.
              lookup (cfg ! nat ((int i - 1) mod int (length cfg)), cfg ! i) = Some (new ! i)) \<and>
           lookup (cfg ! (length cfg - 1), cfg ! 0) = Some (new ! 0) \<and>
           spacetime_field (PyInt r) cfg (PyInt 1) = Inr [cfg, new] \<and>
           (\<forall>self. lookup_table_attr self = lookup \<and> current_configuration self = cfg \<and>
                   length_attr self = length cfg \<longrightarrow>
                   evolve (PyInt 1) self =
                     (Inr (), self\<lparr> current_configuration := new,
                                     spacetime := spacetime self @ [new] \<rparr>))"
proof -
  from lookup_table_dom_ran [OF assms(1,2)]
  obtain lookup where l: "lookup_table (PyInt r) = Inr lookup" by blast
  then have tot: "total_table lookup" by (rule lookup_table_total)
  note val = assms(4)
  let ?new = "next_configuration lookup cfg"
  from assms(3) have pos: "0 < length cfg" by simp
  have step: "new_configuration lookup cfg (length cfg) = Inr ?new"
    using tot val by (rule new_configuration_next)
  have cells: "\<forall>i<length cfg.
      lookup (cfg ! nat ((int i - 1) mod int (length cfg)), cfg ! i) = Some (?new ! i)"
    using next_configuration_nth(1) [OF tot val] by blast
  from cells pos
  have "lookup (cfg ! nat ((int 0 - 1) mod int (length cfg)), cfg ! 0) = Some (?new ! 0)"
    by blast
  then have first: "lookup (cfg ! (length cfg - 1), cfg ! 0) = Some (?new ! 0)"
    by (simp only: left_of_first [OF pos])
  have field: "spacetime_field (PyInt r) cfg (PyInt 1) = Inr [cfg, ?new]"
    using spacetime_field_generations [OF l val, of 1] by simp
  have call: "evolve (PyInt 1) self =
        (Inr (), self\<lparr> current_configuration := ?new, spacetime := spacetime self @ [?new] \<rparr>)"
    if "lookup_table_attr self = lookup \<and> current_configuration self = cfg \<and>
        length_attr self = length cfg" for self
  proof -
    from that tot val have "wf_ECA self" by (simp add: wf_ECA_def)
    from evolve_generations [OF this, of 1] that show ?thesis by simp
  qed
  from l step cells first field call show ?thesis
    by (intro exI [of _ lookup] exI [of _ ?new]) simp
qed

theorem evolution_step_cyclic_witness:
  "(0::int) \<le> 2187 \<and> (2187::int) \<le> 19682 \<and> [1, 0, 0, 2::int] \<noteq> [] \<and>
   set [1, 0, 0, 2] \<subseteq> {0, 1, 2::int} \<and>
   (\<exists>lookup new.
      lookup_table (PyInt 2187) = Inr lookup \<and>
      new_configuration lookup [1, 0, 0, 2] (length [1, 0, 0, 2::int]) = Inr new \<and>
      lookup ([1, 0, 0, 2] ! (length [1, 0, 0, 2::int] - 1), [1, 0, 0, 2] ! 0) = Some (new ! 0) \<and>
      spacetime_field (PyInt 2187) [1, 0, 0, 2] (PyInt 1) = Inr [[1, 0, 0, 2], new]) \<and>
   spacetime_field (PyInt 2187) [1, 0, 0, 2] (PyInt 1) = Inr [[1, 0, 0, 2], [1, 0, 0, 0]]"
proof -
  have a: "(0::int) \<le> 2187" and b: "(2187::int) \<le> 19682" and c: "[1, 0, 0, 2::int] \<noteq> []"
    and d: "set [1, 0, 0, 2] \<subseteq> {0, 1, 2::int}" by simp_all
  have e: "spacetime_field (PyInt 2187) [1, 0, 0, 2] (PyInt 1) = Inr [[1, 0, 0, 2], [1, 0, 0, 0]]"
    by code_simp
  from evolution_step_cyclic [OF a b c d] a b c d e show ?thesis by blast
qed

text \<open>
  Claim C7. For every negative step count, an int or a finite float, \<^verbatim>\<open>evolve\<close> raises
  the ValueError "time_steps must be a non-negative integer" and the instance is after the
  call what it was before: the current configuration, the spacetime history and every
  other attribute are unchanged. Moreover, on every instance a program can hold and for
  every step count, \<^verbatim>\<open>evolve\<close> either raises and leaves the instance unchanged, or returns
  with the whole requested number of generations appended to the history it had.
\<close>

theorem negative_steps_rejected:
  "(n < 0 \<longrightarrow>
      evolve (PyInt n) self =
        (Inl (ValueError ''time_steps must be a non-negative integer''), self)) \<and>
   (q < 0 \<longrightarrow>
      evolve (PyFloat (Finite q)) self =
        (Inl (ValueError ''time_steps must be a non-negative integer''), self)) \<and>
   (reachable self \<longrightarrow>
      (\<exists>e. evolve time_steps self = (Inl e, self)) \<or>
      (\<exists>k self'. py_int time_steps = Inr k \<and>
           evolve time_steps self = (Inr (), self') \<and>
           length (spacetime self') = length (spacetime self) + nat k \<and>
           take (length (spacetime self)) (spacetime self') = spacetime self))"
proof (intro conjI impI)
  assume "n < 0"
  then show "evolve (PyInt n) self =
        (Inl (ValueError ''time_steps must be a non-negative integer''), self)"
    by (simp add: evolve_def time_steps_error_def)
next
  assume "q < 0"
  then show "evolve (PyFloat (Finite q)) self =
        (Inl (ValueError ''time_steps must be a non-negative integer''), self)"
    by (simp add: evolve_def time_steps_error_def)
next
  assume "reachable self"
  then have wf: "wf_ECA self" by (rule reachable_wf)
  from evolve_cases [of time_steps self]
  show "(\<exists>e. evolve time_steps self = (Inl e, self)) \<or>
      (\<exists>k self'. py_int time_steps = Inr k \<and>
           evolve time_steps self = (Inr (), self') \<and>
           length (spacetime self') = length (spacetime self) + nat k \<and>
           take (length (spacetime self)) (spacetime self') = spacetime self)"
  proof
    assume "\<exists>e. evolve time_steps self = (Inl e, self)"
    then show ?thesis by (rule disjI1)
  next
    assume "\<exists>n. 0 \<le> n \<and> \<not> py_lt0 time_steps \<and> py_int time_steps = Inr n \<and>
        evolve time_steps self = evolve_loop (nat n) self"
    then obtain k where k: "py_int time_steps = Inr k"
      and e: "evolve time_steps self = evolve_loop (nat k) self" by blast
    from e evolve_loop_generations [OF wf, of "nat k"] k show ?thesis
      by (intro disjI2 exI [of _ k]) simp
  qed
qed

theorem negative_steps_rejected_witness:
  "\<exists>self. ECA_init (PyInt 9841) [0, 1, 2] = Inr self \<and> reachable self \<and>
      (- 1 :: int) < 0 \<and> (- 1 / 2 :: rat) < 0 \<and>
      evolve (PyInt (- 1)) self =
        (Inl (ValueError ''time_steps must be a non-negative integer''), self) \<and>
      evolve (PyFloat (Finite (- 1 / 2))) self =
        (Inl (ValueError ''time_steps must be a non-negative integer''), self) \<and>
      ((\<exists>e. evolve (PyInt 2) self = (Inl e, self)) \<or>
       (\<exists>k self'. py_int (PyInt 2) = Inr k \<and>
           evolve (PyInt 2) self = (Inr (), self') \<and>
           length (spacetime self') = length (spacetime self) + nat k \<and>
           take (length (spacetime self)) (spacetime self') = spacetime self))"
proof -
  let ?self = "\<lparr> lookup_table_attr = dict (zip neighborhoods [1, 1, 1, 1, 1, 1, 1, 1, 1]),
                  initial = [0, 1, 2], spacetime = [[0, 1, 2]],
                  current_configuration = [0, 1, 2], length_attr = 3 \<rparr>"
  have i: "ECA_init (PyInt 9841) [0, 1, 2] = Inr ?self" by (rule ECA_init_rule_9841)
  then have r: "reachable ?self" by (rule reachable.constructed)
  have a: "(- 1 :: int) < 0" and b: "(- 1 / 2 :: rat) < 0" by simp_all
  from negative_steps_rejected
         [where n = "- 1" and q = "- 1 / 2" and self = ?self and time_steps = "PyInt 2"]
       i r a b
  show ?thesis by blast
qed

text \<open>
  Claim C9. For every valid rule number, every initial condition with cells in
  \<open>{0, 1, 2}\<close> and every number of steps that is not negative, \<^verbatim>\<open>spacetime_field\<close> and
  the instance of \<^verbatim>\<open>ECA\<close> after \<^verbatim>\<open>evolve\<close> give a spacetime field with one generation more
  than the number of steps, in which every configuration has the length of the initial
  condition. This holds in particular of every non-empty initial condition.
\<close>

theorem length_invariance:
  assumes "0 \<le> r" and "r \<le> 19682" and "set ic \<subseteq> {0, 1, 2}" and "0 \<le> n"
  shows "\<exists>field. spacetime_field (PyInt r) ic (PyInt n) = Inr field \<and>
           run_ECA (PyInt r) ic (PyInt n) = Inr field \<and>
           length field = 1 + nat n \<and>
           (\<forall>row\<in>set field. length row = length ic)"
proof -
  from lookup_table_dom_ran [OF assms(1,2)]
  obtain lookup where l: "lookup_table (PyInt r) = Inr lookup" by blast
  let ?self = "\<lparr> lookup_table_attr = lookup, initial = ic, spacetime = [ic],
                  current_configuration = ic, length_attr = length ic \<rparr>"
  have i: "ECA_init (PyInt r) ic = Inr ?self"
    using l assms(3) by (rule ECA_init_valid)
  then have "wf_ECA ?self" by (rule ECA_init_wf)
  from evolve_generations [OF this assms(4)] i
  have "run_ECA (PyInt r) ic (PyInt n) = Inr (ic # generations lookup (nat n) ic)"
    by (simp add: run_ECA_def)
  with spacetime_field_generations [OF l assms(3,4)] show ?thesis
    by (auto dest: generations_rows)
qed

theorem length_invariance_witness:
  "(0::int) \<le> 22 \<and> (22::int) \<le> 19682 \<and> set [0, 0, 2, 0, 1, 0] \<subseteq> {0, 1, 2::int} \<and> (0::int) \<le> 2 \<and>
   (\<exists>field. spacetime_field (PyInt 22) [0, 0, 2, 0, 1, 0] (PyInt 2) = Inr field \<and>
           run_ECA (PyInt 22) [0, 0, 2, 0, 1, 0] (PyInt 2) = Inr field \<and>
           length field = 1 + nat 2 \<and>
           (\<forall>row\<in>set field. length row = length [0, 0, 2, 0, 1, 0::int]))"
proof -
  have a: "(0::int) \<le> 22" and b: "(22::int) \<le> 19682"
    and c: "set [0, 0, 2, 0, 1, 0] \<subseteq> {0, 1, 2::int}" and d: "(0::int) \<le> 2" by simp_all
  from length_invariance [OF a b c d] a b c d show ?thesis by blast
qed

text \<open>
  Claim C10. For every valid rule number, every initial condition with cells in
  \<open>{0, 1, 2}\<close> and every int step count that is not negative, the constructor of \<^verbatim>\<open>ECA\<close>
  succeeds, \<^verbatim>\<open>evolve\<close> succeeds on the instance, and the attribute \<^verbatim>\<open>spacetime\<close> of the
  instance is then the list \<^verbatim>\<open>spacetime_field\<close> returns for the same three arguments.
\<close>

theorem spacetime_field_eq_ECA:
  assumes "0 \<le> r" and "r \<le> 19682" and "set ic \<subseteq> {0, 1, 2}" and "0 \<le> n"
  shows "\<exists>self self'. ECA_init (PyInt r) ic = Inr self \<and>
           evolve (PyInt n) self = (Inr (), self') \<and>
           spacetime_field (PyInt r) ic (PyInt n) = Inr (spacetime self')"
proof -
  from lookup_table_dom_ran [OF assms(1,2)]
  obtain lookup where l: "lookup_table (PyInt r) = Inr lookup" by blast
  let ?self = "\<lparr> lookup_table_attr = lookup, initial = ic, spacetime = [ic],
                  current_configuration = ic, length_attr = length ic \<rparr>"
  have i: "ECA_init (PyInt r) ic = Inr ?self"
    using l assms(3) by (rule ECA_init_valid)
  then have "wf_ECA ?self" by (rule ECA_init_wf)
  from evolve_generations [OF this assms(4)] i spacetime_field_generations [OF l assms(3,4)]
  show ?thesis by simp
qed

theorem spacetime_field_eq_ECA_witness:
  "(0::int) \<le> 22 \<and> (22::int) \<le> 19682 \<and> set [0, 0, 2, 0, 1, 0] \<subseteq> {0, 1, 2::int} \<and> (0::int) \<le> 2 \<and>
   (\<exists>self self'. ECA_init (PyInt 22) [0, 0, 2, 0, 1, 0] = Inr self \<and>
           evolve (PyInt 2) self = (Inr (), self') \<and>
           spacetime_field (PyInt 22) [0, 0, 2, 0, 1, 0] (PyInt 2) = Inr (spacetime self'))"
proof -
  have a: "(0::int) \<le> 22" and b: "(22::int) \<le> 19682"
    and c: "set [0, 0, 2, 0, 1, 0] \<subseteq> {0, 1, 2::int}" and d: "(0::int) \<le> 2" by simp_all
  from spacetime_field_eq_ECA [OF a b c d] a b c d show ?thesis by blast
qed

section \<open>Claims the code does not meet as they are stated\<close>

text \<open>
  Claim C4 says that a zero-length initial condition is refused with an EmptyLattice
  error. The code has no such check: neither the constructor nor \<^verbatim>\<open>spacetime_field\<close>
  looks at the length of the initial condition before use. With rule number 22 the empty
  initial condition is accepted by both, and two steps give three empty generations.
\<close>

theorem empty_lattice_accepted:
  "\<not> isl (ECA_init (PyInt 22) []) \<and>
   spacetime_field (PyInt 22) [] (PyInt 2) = Inr [[], [], []] \<and>
   run_ECA (PyInt 22) [] (PyInt 2) = Inr [[], [], []]"
proof (intro conjI)
  show "\<not> isl (ECA_init (PyInt 22) [])" by code_simp
  show "spacetime_field (PyInt 22) [] (PyInt 2) = Inr [[], [], []]" by code_simp
  show "run_ECA (PyInt 22) [] (PyInt 2) = Inr [[], [], []]" by code_simp
qed

text \<open>
  Claim C4, as the code has it. With a valid rule number, the constructor accepts the
  empty initial condition and returns an instance whose history is the one empty
  generation, whose current configuration is empty and whose length is 0; and for every
  number \<open>n\<close> of steps that is not negative, \<^verbatim>\<open>spacetime_field\<close> and the instance after
  \<^verbatim>\<open>evolve\<close> give \<open>n + 1\<close> empty generations.
\<close>

theorem empty_lattice_constructed:
  assumes "0 \<le> r" and "r \<le> 19682" and "0 \<le> n"
  shows "(\<exists>self. ECA_init (PyInt r) [] = Inr self \<and> initial self = [] \<and>
            spacetime self = [[]] \<and> current_configuration self = [] \<and> length_attr self = 0) \<and>
         spacetime_field (PyInt r) [] (PyInt n) = Inr (replicate (1 + nat n) []) \<and>
         run_ECA (PyInt r) [] (PyInt n) = Inr (replicate (1 + nat n) [])"
proof -
  from lookup_table_dom_ran [OF assms(1,2)]
  obtain lookup where l: "lookup_table (PyInt r) = Inr lookup" by blast
  let ?self = "\<lparr> lookup_table_attr = lookup, initial = [], spacetime = [[]],
                  current_configuration = [], length_attr = 0 \<rparr>"
  have i: "ECA_init (PyInt r) [] = Inr ?self"
    using ECA_init_valid [OF l, of "[]"] by simp
  then have "wf_ECA ?self" by (rule ECA_init_wf)
  from evolve_generations [OF this assms(3)] i
  have "run_ECA (PyInt r) [] (PyInt n) = Inr (replicate (1 + nat n) [])"
    by (simp add: run_ECA_def generations_Nil)
  moreover have "spacetime_field (PyInt r) [] (PyInt n) = Inr (replicate (1 + nat n) [])"
    using spacetime_field_generations [OF l _ assms(3), of "[]"] by (simp add: generations_Nil)
  ultimately show ?thesis using i by simp
qed

theorem empty_lattice_constructed_witness:
  "(0::int) \<le> 22 \<and> (22::int) \<le> 19682 \<and> (0::int) \<le> 2 \<and>
   (\<exists>self. ECA_init (PyInt 22) [] = Inr self \<and> spacetime self = [[]]) \<and>
   spacetime_field (PyInt 22) [] (PyInt 2) = Inr (replicate (1 + nat 2) [])"
proof -
  have a: "(0::int) \<le> 22" and b: "(22::int) \<le> 19682" and c: "(0::int) \<le> 2" by simp_all
  from empty_lattice_constructed [OF a b c] a b c show ?thesis by blast
qed

text \<open>
  Claim C5 says that a step count that is not integral, such as 2.5, is refused before
  any evolution. The code converts the step count with \<^verbatim>\<open>int()\<close>, which turns 2.5 into 2:
  with rule number 22 and the initial condition [0,0,2,0,1,0], the step count 2.5 gives the
  three generations that the step count 2 gives.
\<close>

theorem fractional_steps_accepted:
  "run_ECA (PyInt 22) [0, 0, 2, 0, 1, 0] (PyFloat (Finite (5 / 2))) =
     Inr [[0, 0, 2, 0, 1, 0], [1, 1, 2, 0, 1, 0], [1, 0, 0, 0, 1, 0]] \<and>
   spacetime_field (PyInt 22) [0, 0, 2, 0, 1, 0] (PyFloat (Finite (5 / 2))) =
     Inr [[0, 0, 2, 0, 1, 0], [1, 1, 2, 0, 1, 0], [1, 0, 0, 0, 1, 0]]"
proof
  show "run_ECA (PyInt 22) [0, 0, 2, 0, 1, 0] (PyFloat (Finite (5 / 2))) =
     Inr [[0, 0, 2, 0, 1, 0], [1, 1, 2, 0, 1, 0], [1, 0, 0, 0, 1, 0]]"
    by code_simp
  show "spacetime_field (PyInt 22) [0, 0, 2, 0, 1, 0] (PyFloat (Finite (5 / 2))) =
     Inr [[0, 0, 2, 0, 1, 0], [1, 1, 2, 0, 1, 0], [1, 0, 0, 0, 1, 0]]"
    by code_simp
qed

text \<open>
  Claim C5, as the code has it. A finite float step count \<open>q\<close> is refused, with the
  ValueError "time_steps must be a non-negative integer" and before any evolution, exactly
  when it is negative; otherwise it is truncated to the int \<open>\<lfloor>q\<rfloor>\<close> and the call does what
  it does for that int. This holds of \<^verbatim>\<open>evolve\<close> and of \<^verbatim>\<open>spacetime_field\<close>, for integral and
  non-integral \<open>q\<close> alike.
\<close>

theorem fractional_steps_truncated:
  "(q < 0 \<longrightarrow>
      evolve (PyFloat (Finite q)) self =
        (Inl (ValueError ''time_steps must be a non-negative integer''), self) \<and>
      spacetime_field rule_number ic (PyFloat (Finite q)) =
        Inl (ValueError ''time_steps must be a non-negative integer'')) \<and>
   (0 \<le> q \<longrightarrow>
      evolve (PyFloat (Finite q)) self = evolve (PyInt \<lfloor>q\<rfloor>) self \<and>
      spacetime_field rule_number ic (PyFloat (Finite q)) =
        spacetime_field rule_number ic (PyInt \<lfloor>q\<rfloor>))"
  by (simp add: evolve_def spacetime_field_def convert_time_steps_def time_steps_error_def)

theorem fractional_steps_truncated_witness:
  "(0::rat) \<le> 5 / 2 \<and> \<not> (5 / 2 :: rat) < 0 \<and>
   (\<forall>self. evolve (PyFloat (Finite (5 / 2))) self = evolve (PyInt 2) self) \<and>
   (- 5 / 2 :: rat) < 0 \<and>
   (\<forall>self. evolve (PyFloat (Finite (- 5 / 2))) self =
        (Inl (ValueError ''time_steps must be a non-negative integer''), self))"
proof -
  have fl: "\<lfloor>5 / 2 :: rat\<rfloor> = 2" by (simp add: floor_eq_iff)
  from fractional_steps_truncated [of "5 / 2"] fractional_steps_truncated [of "- 5 / 2"]
  show ?thesis by (simp add: fl)
qed

text \<open>
  Claim C6 says that from every engine state \<^verbatim>\<open>evolve(n)\<close> followed by \<^verbatim>\<open>evolve(m)\<close>
  leaves a history of exactly \<open>1 + n + m\<close> generations. \<^verbatim>\<open>evolve\<close> appends to whatever
  history the instance holds, so the count is right only from an instance as the
  constructor returns it. The instance built from rule number 22 and [0,0,2,0,1,0] holds
  two generations after \<^verbatim>\<open>evolve(1)\<close>; it is an engine state, and from it \<^verbatim>\<open>evolve(1)\<close>
  followed by \<^verbatim>\<open>evolve(1)\<close>, like the single call \<^verbatim>\<open>evolve(2)\<close>, leaves a history of 4
  generations and not of 3.
\<close>

theorem evolved_engine_history_count:
  "\<not> isl (ECA_init (PyInt 22) [0, 0, 2, 0, 1, 0]) \<and>
   reachable (snd (evolve (PyInt 1) (projr (ECA_init (PyInt 22) [0, 0, 2, 0, 1, 0])))) \<and>
   map_prod id (\<lambda>self. length (spacetime self))
     (evolve (PyInt 1)
        (snd (evolve (PyInt 1)
           (snd (evolve (PyInt 1) (projr (ECA_init (PyInt 22) [0, 0, 2, 0, 1, 0]))))))) =
     (Inr (), 4) \<and>
   map_prod id (\<lambda>self. length (spacetime self))
     (evolve (PyInt (1 + 1))
        (snd (evolve (PyInt 1) (projr (ECA_init (PyInt 22) [0, 0, 2, 0, 1, 0]))))) =
     (Inr (), 4) \<and>
   (4::nat) \<noteq> 1 + nat 1 + nat 1"
proof (intro conjI)
  show ok: "\<not> isl (ECA_init (PyInt 22) [0, 0, 2, 0, 1, 0])" by code_simp
  then have "ECA_init (PyInt 22) [0, 0, 2, 0, 1, 0] =
             Inr (projr (ECA_init (PyInt 22) [0, 0, 2, 0, 1, 0]))"
    by (cases "ECA_init (PyInt 22) [0, 0, 2, 0, 1, 0]") simp_all
  then have "reachable (projr (ECA_init (PyInt 22) [0, 0, 2, 0, 1, 0]))"
    by (rule reachable.constructed)
  then show "reachable (snd (evolve (PyInt 1) (projr (ECA_init (PyInt 22) [0, 0, 2, 0, 1, 0]))))"
    by (rule reachable.evolved)
  show "map_prod id (\<lambda>self. length (spacetime self))
     (evolve (PyInt 1)
        (snd (evolve (PyInt 1)
           (snd (evolve (PyInt 1) (projr (ECA_init (PyInt 22) [0, 0, 2, 0, 1, 0]))))))) =
     (Inr (), 4)"
    by code_simp
  show "map_prod id (\<lambda>self. length (spacetime self))
     (evolve (PyInt (1 + 1))
        (snd (evolve (PyInt 1) (projr (ECA_init (PyInt 22) [0, 0, 2, 0, 1, 0]))))) =
     (Inr (), 4)"
    by code_simp
  show "(4::nat) \<noteq> 1 + nat 1 + nat 1" by simp
qed

text \<open>
  Claim C6, as the code has it. For every instance a program can hold, \<^verbatim>\<open>evolve(0)\<close>
  succeeds and leaves the instance as it was; and for all \<open>n\<close> and \<open>m\<close> that are not
  negative, \<^verbatim>\<open>evolve(n)\<close> followed by \<^verbatim>\<open>evolve(m)\<close> succeeds and leaves the very instance
  (the same current configuration, the same spacetime history and the same other
  attributes) that a single \<^verbatim>\<open>evolve(n+m)\<close> leaves from the same start. The history then
  holds exactly \<open>n + m\<close> generations more than it held at the start, which is exactly
  \<open>1 + n + m\<close> generations when the start is an instance as the constructor returns it.
\<close>

theorem evolve_additive:
  assumes "reachable self" and "0 \<le> n" and "0 \<le> m"
  shows "evolve (PyInt 0) self = (Inr (), self) \<and>
         (\<exists>s1 s2. evolve (PyInt n) self = (Inr (), s1) \<and>
                  evolve (PyInt m) s1 = (Inr (), s2) \<and>
                  evolve (PyInt (n + m)) self = (Inr (), s2) \<and>
                  length (spacetime s2) = length (spacetime self) + nat n + nat m \<and>
                  (\<forall>rule_number initial_condition.
                     ECA_init rule_number initial_condition = Inr self \<longrightarrow>
                     length (spacetime s2) = 1 + nat n + nat m))"
proof -
  let ?lookup = "lookup_table_attr self"
  let ?cur = "current_configuration self"
  let ?s1 = "self\<lparr> current_configuration := last (?cur # generations ?lookup (nat n) ?cur),
                    spacetime := spacetime self @ generations ?lookup (nat n) ?cur \<rparr>"
  let ?cur1 = "last (?cur # generations ?lookup (nat n) ?cur)"
  let ?s2 = "?s1\<lparr> current_configuration := last (?cur1 # generations ?lookup (nat m) ?cur1),
                   spacetime := spacetime ?s1 @ generations ?lookup (nat m) ?cur1 \<rparr>"
  from assms(1) have wf: "wf_ECA self" by (rule reachable_wf)
  have zero: "evolve (PyInt 0) self = (Inr (), self)"
    by (simp add: evolve_def convert_time_steps_def)
  have first: "evolve (PyInt n) self = (Inr (), ?s1)"
    using wf assms(2) by (rule evolve_generations)
  from wf_ECA_evolve [OF wf, of "PyInt n"] first have wf1: "wf_ECA ?s1" by simp
  have second: "evolve (PyInt m) ?s1 = (Inr (), ?s2)"
    using evolve_generations [OF wf1 assms(3)] by simp
  from assms(2,3) have nm: "0 \<le> n + m" and split: "nat (n + m) = nat n + nat m"
    by (simp_all add: nat_add_distrib)
  have whole: "evolve (PyInt (n + m)) self = (Inr (), ?s2)"
    using evolve_generations [OF wf nm]
    by (simp add: split generations_add last_append_last)
  have len: "length (spacetime ?s2) = length (spacetime self) + nat n + nat m"
    by simp
  have fresh: "length (spacetime ?s2) = 1 + nat n + nat m"
    if "ECA_init rule_number initial_condition = Inr self" for rule_number initial_condition
  proof -
    from that have "spacetime self = [initial_condition]"
      by (rule ECA_init_Inr) simp
    with len show ?thesis by simp
  qed
  from first second whole len fresh have
    "\<exists>s1 s2. evolve (PyInt n) self = (Inr (), s1) \<and>
                  evolve (PyInt m) s1 = (Inr (), s2) \<and>
                  evolve (PyInt (n + m)) self = (Inr (), s2) \<and>
                  length (spacetime s2) = length (spacetime self) + nat n + nat m \<and>
                  (\<forall>rule_number initial_condition.
                     ECA_init rule_number initial_condition = Inr self \<longrightarrow>
                     length (spacetime s2) = 1 + nat n + nat m)"
    by (intro exI [of _ ?s1] exI [of _ ?s2]) blast
  with zero show ?thesis by blast
qed

theorem evolve_additive_witness:
  "\<exists>self. ECA_init (PyInt 9841) [0, 1, 2] = Inr self \<and> reachable self \<and>
      (0::int) \<le> 1 \<and> (0::int) \<le> 2 \<and>
      evolve (PyInt 0) self = (Inr (), self) \<and>
      (\<exists>s1 s2. evolve (PyInt 1) self = (Inr (), s1) \<and>
               evolve (PyInt 2) s1 = (Inr (), s2) \<and>
               evolve (PyInt (1 + 2)) self = (Inr (), s2) \<and>
               length (spacetime s2) = 1 + nat 1 + nat 2)"
proof -
  let ?self = "\<lparr> lookup_table_attr = dict (zip neighborhoods [1, 1, 1, 1, 1, 1, 1, 1, 1]),
                  initial = [0, 1, 2], spacetime = [[0, 1, 2]],
                  current_configuration = [0, 1, 2], length_attr = 3 \<rparr>"
  have i: "ECA_init (PyInt 9841) [0, 1, 2] = Inr ?self" by (rule ECA_init_rule_9841)
  then have r: "reachable ?self" by (rule reachable.constructed)
  have a: "(0::int) \<le> 1" and b: "(0::int) \<le> 2" by simp_all
  from evolve_additive [OF r a b] i r a b show ?thesis by blast
qed

end
